theory Spec2Isabelle
  imports Complex_Main "HOL-Library.Word"
begin

section \<open>Strings\<close>

text \<open>
  A JavaScript string is a sequence of UTF-16 code units; \<open>slice\<close>, \<open>length\<close> and
  \<open>parseInt\<close> count and read code units. A string is therefore a list of 16-bit words.
  \<open>str\<close> writes an ASCII literal; the literals of the source that are not ASCII are
  spelled out unit by unit, an emoji as its surrogate pair.
\<close>

type_synonym jsstring = "16 word list"

definition str :: "string \<Rightarrow> jsstring" where
  "str cs = map of_char cs"

text \<open>The suggestion \<open>Sali apurado\<close> (its i with an acute accent is U+00ED), the padlock emoji
  U+1F512 (the surrogate pair D83D DD12) and the message \<open>Formato invalido\<close> (its first a
  with an acute accent is U+00E1).\<close>

definition sali_apurado :: jsstring where
  "sali_apurado = str ''Sal'' @ [0xED] @ str '' apurado''"

definition padlock :: jsstring where
  "padlock = [0xD83D, 0xDD12]"

definition formato_invalido :: jsstring where
  "formato_invalido = str ''Formato inv'' @ [0xE1] @ str ''lido''"

section \<open>The Document\<close>

text \<open>
  The state held by \<open>useLocalStorage('lockLoggerData', defaultState)\<close>. The field \<open>id\<close> of
  a lockable and of an entry is named \<open>lockable_id\<close> and \<open>entry_id\<close> here, and the field
  \<open>note\<close> is \<open>entry_note\<close>. \<open>color\<close> is optional because \<open>addLockable\<close> stores what
  \<open>window.prompt\<close> returned, which is \<open>null\<close> when the dialog is cancelled; \<open>entry_note\<close> is
  \<open>None\<close> for \<open>undefined\<close>.
\<close>

record lockable =
  lockable_id :: jsstring
  name :: jsstring
  icon :: jsstring
  color :: "jsstring option"

record entry =
  entry_id :: jsstring
  lockableId :: jsstring
  tsISO :: jsstring
  entry_note :: "jsstring option"

record preferences =
  theme :: jsstring
  confirmNote :: bool
  quickNoteSuggestions :: "jsstring list"

record document =
  lockables :: "lockable list"
  entries :: "entry list"
  prefs :: preferences

definition default_suggestions :: "jsstring list" where
  "default_suggestions = [sali_apurado, str ''Doble chequeo'', str ''Con alarma'']"

definition defaultState :: document where
  "defaultState =
    \<lparr>lockables =
       [\<lparr>lockable_id = str ''casa'', name = str ''Casa'', icon = [0xD83C, 0xDFE0],
          color = Some (str ''#0ea5e9'')\<rparr>,
        \<lparr>lockable_id = str ''auto'', name = str ''Auto'', icon = [0xD83D, 0xDE97],
          color = Some (str ''#0ea5e9'')\<rparr>,
        \<lparr>lockable_id = str ''oficina'', name = str ''Oficina'', icon = [0xD83C, 0xDFE2],
          color = Some (str ''#0ea5e9'')\<rparr>],
     entries = [],
     prefs = \<lparr>theme = str ''system'', confirmNote = False,
              quickNoteSuggestions = default_suggestions\<rparr>\<rparr>"

section \<open>The host\<close>

text \<open>
  What the program asks of the browser and cannot compute itself. The functions of the
  platform that are deterministic are the fields of \<open>host\<close>; \<open>'n\<close> is the type of
  JavaScript numbers, which the program never computes with but may meet in an imported
  file. A time value is the number of milliseconds since the epoch, \<open>None\<close> standing for
  \<open>NaN\<close> (an invalid \<open>Date\<close>).

  \<^item> \<open>num_truthy\<close>: \<open>ToBoolean\<close> of a number;
  \<^item> \<open>num_to_string\<close>: \<open>String(n)\<close>;
  \<^item> \<open>num_time\<close>: the time value of \<open>new Date(n)\<close>;
  \<^item> \<open>date_parse\<close>: the time value of \<open>new Date(s)\<close> for a string;
  \<^item> \<open>to_iso\<close>: \<open>toISOString()\<close> of a valid \<open>Date\<close>;
  \<^item> \<open>start_of_day\<close>: the time value after \<open>setHours(0, 0, 0, 0)\<close>;
  \<^item> \<open>prev_day\<close>: the time value after \<open>setDate(getDate() - 1)\<close>, which is \<open>NaN\<close> once
    the day falls outside the range of \<open>Date\<close>.
\<close>

record 'n host =
  num_truthy :: "'n \<Rightarrow> bool"
  num_to_string :: "'n \<Rightarrow> jsstring"
  num_time :: "'n \<Rightarrow> int option"
  date_parse :: "jsstring \<Rightarrow> int option"
  to_iso :: "int \<Rightarrow> jsstring"
  start_of_day :: "int \<Rightarrow> int"
  prev_day :: "int \<Rightarrow> int option"

subsection \<open>A reference host\<close>

text \<open>
  One concrete host, for evaluating the program at concrete inputs: a browser whose local
  time zone is UTC. Its numbers are the integers. Its \<open>Date\<close> reads the two UTC forms
  \<^verbatim>\<open>YYYY-MM-DDTHH:mm:ss.sssZ\<close> and \<^verbatim>\<open>YYYY-MM-DDTHH:mm:ssZ\<close> of the ECMAScript date-time
  format and takes every other string for an invalid date; it prints the first form, as
  \<open>toISOString\<close> does. Days are counted in the proleptic Gregorian calendar.
\<close>

definition digit_of :: "16 word \<Rightarrow> nat option" where
  "digit_of c = (if 0x30 \<le> c \<and> c \<le> 0x39 then Some (unat c - 48) else None)"

fun digits_value :: "nat \<Rightarrow> jsstring \<Rightarrow> nat option" where
  "digits_value acc [] = Some acc"
| "digits_value acc (c # cs) =
     (case digit_of c of None \<Rightarrow> None | Some v \<Rightarrow> digits_value (10 * acc + v) cs)"

definition field :: "nat \<Rightarrow> nat \<Rightarrow> jsstring \<Rightarrow> nat option" where
  "field pos len s = digits_value 0 (take len (drop pos s))"

fun pad :: "nat \<Rightarrow> nat \<Rightarrow> jsstring" where
  "pad 0 n = []"
| "pad (Suc w) n = pad w (n div 10) @ [of_nat (48 + n mod 10)]"

definition days_from_civil :: "int \<Rightarrow> int \<Rightarrow> int \<Rightarrow> int" where
  "days_from_civil y m d =
    (let y1 = (if m \<le> 2 then y - 1 else y);
         era = y1 div 400;
         yoe = y1 - era * 400;
         doy = (153 * (if m > 2 then m - 3 else m + 9) + 2) div 5 + d - 1;
         doe = yoe * 365 + yoe div 4 - yoe div 100 + doy
     in era * 146097 + doe - 719468)"

definition civil_from_days :: "int \<Rightarrow> int \<times> int \<times> int" where
  "civil_from_days z =
    (let z1 = z + 719468;
         era = z1 div 146097;
         doe = z1 - era * 146097;
         yoe = (doe - doe div 1460 + doe div 36524 - doe div 146096) div 365;
         doy = doe - (365 * yoe + yoe div 4 - yoe div 100);
         mp = (5 * doy + 2) div 153;
         d = doy - (153 * mp + 2) div 5 + 1;
         m = (if mp < 10 then mp + 3 else mp - 9)
     in (yoe + era * 400 + (if m \<le> 2 then 1 else 0), m, d))"

definition ms_per_day :: int where
  "ms_per_day = 86400000"

definition ref_to_iso :: "int \<Rightarrow> jsstring" where
  "ref_to_iso t =
    (let (y, m, d) = civil_from_days (t div ms_per_day);
         ms = t mod ms_per_day;
         year = (if 0 \<le> y \<and> y \<le> 9999 then pad 4 (nat y)
                 else str (if y < 0 then ''-'' else ''+'') @ pad 6 (nat \<bar>y\<bar>))
     in year @ str ''-'' @ pad 2 (nat m) @ str ''-'' @ pad 2 (nat d) @ str ''T'' @
        pad 2 (nat (ms div 3600000)) @ str '':'' @
        pad 2 (nat (ms div 60000 mod 60)) @ str '':'' @
        pad 2 (nat (ms div 1000 mod 60)) @ str ''.'' @
        pad 3 (nat (ms mod 1000)) @ str ''Z'')"

definition unit_at :: "jsstring \<Rightarrow> nat \<Rightarrow> char \<Rightarrow> bool" where
  "unit_at s i c = (i < length s \<and> s ! i = of_char c)"

definition ref_date_parse :: "jsstring \<Rightarrow> int option" where
  "ref_date_parse s =
    (if (length s = 24 \<and> unit_at s 19 CHR ''.'' \<and> unit_at s 23 CHR ''Z'' \<or>
         length s = 20 \<and> unit_at s 19 CHR ''Z'') \<and>
        unit_at s 4 CHR ''-'' \<and> unit_at s 7 CHR ''-'' \<and> unit_at s 10 CHR ''T'' \<and>
        unit_at s 13 CHR '':'' \<and> unit_at s 16 CHR '':''
     then
       (case (field 0 4 s, field 5 2 s, field 8 2 s, field 11 2 s, field 14 2 s, field 17 2 s,
              if length s = 24 then field 20 3 s else Some 0) of
          (Some y, Some m, Some d, Some hh, Some mi, Some ss, Some ms) \<Rightarrow>
            (let days = days_from_civil (int y) (int m) (int d)
             in if 1 \<le> m \<and> m \<le> 12 \<and> 1 \<le> d \<and>
                   civil_from_days days = (int y, int m, int d) \<and>
                   hh < 24 \<and> mi < 60 \<and> ss < 60
                then Some (days * ms_per_day + int hh * 3600000 + int mi * 60000 +
                           int ss * 1000 + int ms)
                else None)
        | _ \<Rightarrow> None)
     else None)"

fun decimal :: "nat \<Rightarrow> jsstring" where
  "decimal n = (if n < 10 then pad 1 n else decimal (n div 10) @ pad 1 (n mod 10))"

text \<open>\<open>String(n)\<close> of an integer below \<open>10 ^ 21\<close> in magnitude that a double holds exactly;
  larger numbers, which JavaScript prints with an exponent, are not among the inputs
  evaluated on this host.\<close>

definition ref_num_to_string :: "int \<Rightarrow> jsstring" where
  "ref_num_to_string n = (if n < 0 then str ''-'' else []) @ decimal (nat \<bar>n\<bar>)"

text \<open>\<open>TimeClip\<close>: a time value lies within 100 000 000 days of the epoch.\<close>

definition time_clip :: "int \<Rightarrow> int option" where
  "time_clip t = (if \<bar>t\<bar> \<le> 8640000000000000 then Some t else None)"

definition ref_host :: "int host" where
  "ref_host =
    \<lparr>num_truthy = (\<lambda>n. n \<noteq> 0),
     num_to_string = ref_num_to_string,
     num_time = time_clip,
     date_parse = ref_date_parse,
     to_iso = ref_to_iso,
     start_of_day = (\<lambda>t. t - t mod ms_per_day),
     prev_day = (\<lambda>t. time_clip (t - ms_per_day))\<rparr>"

section \<open>Mutations of the Document\<close>

text \<open>
  What the environment returns during one call of \<open>recordEntry\<close>: the string \<open>uid()\<close>
  made from \<open>Math.random()\<close>, the clock read by \<open>new Date()\<close>, and the answer to
  \<open>window.prompt\<close> (\<open>None\<close> for \<open>null\<close>, the dialog cancelled), which is asked for only
  when \<open>confirmNote\<close> is set.
\<close>

record click =
  click_uid :: jsstring
  click_now :: int
  click_prompt :: "jsstring option"

text \<open>\<open>note || undefined\<close>: \<open>null\<close>, \<open>undefined\<close> and the empty string give \<open>undefined\<close>.\<close>

definition note_or_undefined :: "jsstring option \<Rightarrow> jsstring option" where
  "note_or_undefined n = (case n of None \<Rightarrow> None | Some s \<Rightarrow> if s = [] then None else Some s)"

definition new_entry :: "'n host \<Rightarrow> click \<Rightarrow> lockable \<Rightarrow> document \<Rightarrow> entry" where
  "new_entry h c l d =
    (let n = (if confirmNote (prefs d) then click_prompt c else None)
     in \<lparr>entry_id = click_uid c,
         lockableId = lockable_id l,
         tsISO = to_iso h (click_now c),
         entry_note = note_or_undefined n\<rparr>)"

definition recordEntry :: "'n host \<Rightarrow> click \<Rightarrow> lockable \<Rightarrow> document \<Rightarrow> document" where
  "recordEntry h c l d = d\<lparr>entries := take 200 (new_entry h c l d # entries d)\<rparr>"

text \<open>The three answers to the prompts of \<open>addLockable\<close>, and the \<open>uid()\<close> drawn after them.\<close>

definition addLockable ::
  "jsstring option \<Rightarrow> jsstring option \<Rightarrow> jsstring option \<Rightarrow> jsstring \<Rightarrow> document \<Rightarrow> document" where
  "addLockable name_answer icon_answer color_answer u d =
    (case name_answer of
       None \<Rightarrow> d
     | Some n \<Rightarrow>
         if n = [] then d
         else (case icon_answer of
                 None \<Rightarrow> d
               | Some i \<Rightarrow>
                   if i = [] then d
                   else d\<lparr>lockables := lockables d @
                          [\<lparr>lockable_id = u, name = n, icon = i, color = color_answer\<rparr>]\<rparr>))"

definition undoLast :: "document \<Rightarrow> document" where
  "undoLast d = d\<lparr>entries := drop 1 (entries d)\<rparr>"

definition updateTheme :: "jsstring \<Rightarrow> document \<Rightarrow> document" where
  "updateTheme t d = d\<lparr>prefs := (prefs d)\<lparr>theme := t\<rparr>\<rparr>"

text \<open>A run of clicks on lockable buttons, oldest first.\<close>

fun record_all :: "'n host \<Rightarrow> (click \<times> lockable) list \<Rightarrow> document \<Rightarrow> document" where
  "record_all h [] d = d"
| "record_all h ((c, l) # cs) d = record_all h cs (recordEntry h c l d)"

section \<open>Values read from a file\<close>

text \<open>
  The values \<open>JSON.parse\<close> builds, and \<open>undefined\<close>, which a property read gives for a
  property that is not there. An object is the list of its own properties, each name
  once.
\<close>

datatype 'n jsval =
  JUndefined
| JNull
| JBool bool
| JNum 'n
| JStr jsstring
| JArr "'n jsval list"
| JObj "(jsstring \<times> 'n jsval) list"

text \<open>
  What the \<open>try\<close> block of \<open>importData\<close> can catch: the \<open>Error\<close> the program throws itself,
  with its message, and the errors of the platform.
\<close>

datatype js_error = Error jsstring | TypeError | RangeError | SyntaxError

definition bind :: "js_error + 'a \<Rightarrow> ('a \<Rightarrow> js_error + 'b) \<Rightarrow> js_error + 'b" where
  "bind m f = (case m of Inl e \<Rightarrow> Inl e | Inr x \<Rightarrow> f x)"

definition own_prop :: "(jsstring \<times> 'n jsval) list \<Rightarrow> jsstring \<Rightarrow> 'n jsval" where
  "own_prop ps k = (case map_of ps k of None \<Rightarrow> JUndefined | Some v \<Rightarrow> v)"

text \<open>
  \<open>v.k\<close>, for the property names this program reads (\<open>lockables\<close>, \<open>entries\<close>, \<open>prefs\<close>,
  \<open>id\<close>, \<open>name\<close>, \<open>icon\<close>, \<open>color\<close>, \<open>lockableId\<close>, \<open>tsISO\<close>, \<open>note\<close>, \<open>theme\<close>,
  \<open>confirmNote\<close>, \<open>quickNoteSuggestions\<close>): none of them is a property of the built-in
  prototypes, so a string, a number, a boolean and an array give \<open>undefined\<close>, and
  \<open>null\<close> and \<open>undefined\<close> throw.
\<close>

definition get_prop :: "'n jsval \<Rightarrow> jsstring \<Rightarrow> js_error + 'n jsval" where
  "get_prop v k =
    (case v of
       JUndefined \<Rightarrow> Inl TypeError
     | JNull \<Rightarrow> Inl TypeError
     | JObj ps \<Rightarrow> Inr (own_prop ps k)
     | _ \<Rightarrow> Inr JUndefined)"

text \<open>\<open>v?.k\<close>, for the same property names.\<close>

definition opt_prop :: "'n jsval \<Rightarrow> jsstring \<Rightarrow> 'n jsval" where
  "opt_prop v k = (case v of JObj ps \<Rightarrow> own_prop ps k | _ \<Rightarrow> JUndefined)"

text \<open>\<open>ToBoolean\<close>, which \<open>||\<close>, \<open>?:\<close> and \<open>!!\<close> apply.\<close>

definition truthy :: "'n host \<Rightarrow> 'n jsval \<Rightarrow> bool" where
  "truthy h v =
    (case v of
       JUndefined \<Rightarrow> False
     | JNull \<Rightarrow> False
     | JBool b \<Rightarrow> b
     | JNum n \<Rightarrow> num_truthy h n
     | JStr s \<Rightarrow> s \<noteq> []
     | _ \<Rightarrow> True)"

definition isArray :: "'n jsval \<Rightarrow> bool" where
  "isArray v = (case v of JArr _ \<Rightarrow> True | _ \<Rightarrow> False)"

definition elements :: "'n jsval \<Rightarrow> 'n jsval list" where
  "elements v = (case v of JArr xs \<Rightarrow> xs | _ \<Rightarrow> [])"

text \<open>\<open>Array.prototype.join\<close> with the separator \<open>,\<close>, over parts that may have thrown.\<close>

fun join :: "jsstring option list \<Rightarrow> jsstring option" where
  "join [] = Some []"
| "join [p] = p"
| "join (p # q # ps) =
     (case p of
        None \<Rightarrow> None
      | Some s \<Rightarrow> (case join (q # ps) of None \<Rightarrow> None | Some r \<Rightarrow> Some (s @ str '','' @ r)))"

text \<open>
  \<open>String(v)\<close>; \<open>None\<close> when it throws a \<open>TypeError\<close>. An array is joined, \<open>null\<close> and
  \<open>undefined\<close> elements giving the empty string. An object read from JSON has no
  function among its properties: it prints as \<open>[object Object]\<close> through
  \<open>Object.prototype.toString\<close>, unless a property of its own named \<open>toString\<close> hides that
  method, and then no conversion is left.
\<close>

fun js_string :: "'n host \<Rightarrow> 'n jsval \<Rightarrow> jsstring option" where
  "js_string h JUndefined = Some (str ''undefined'')"
| "js_string h JNull = Some (str ''null'')"
| "js_string h (JBool b) = Some (str (if b then ''true'' else ''false''))"
| "js_string h (JNum n) = Some (num_to_string h n)"
| "js_string h (JStr s) = Some s"
| "js_string h (JArr xs) =
     join (map (\<lambda>x. case x of JUndefined \<Rightarrow> Some [] | JNull \<Rightarrow> Some [] | _ \<Rightarrow> js_string h x) xs)"
| "js_string h (JObj ps) =
     (if str ''toString'' \<in> fst ` set ps then None else Some (str ''[object Object]''))"

definition String_of :: "'n host \<Rightarrow> 'n jsval \<Rightarrow> js_error + jsstring" where
  "String_of h v = (case js_string h v of None \<Rightarrow> Inl TypeError | Some s \<Rightarrow> Inr s)"

text \<open>
  The time value of \<open>new Date(v)\<close>: a string is parsed, a number is clipped, a boolean is
  a number, and an array or object is first made a string (its \<open>valueOf\<close> returns the
  object itself, so \<open>toString\<close> decides, as in \<open>String(v)\<close>).
\<close>

definition date_value :: "'n host \<Rightarrow> 'n jsval \<Rightarrow> js_error + int option" where
  "date_value h v =
    (case v of
       JUndefined \<Rightarrow> Inr None
     | JNull \<Rightarrow> Inr (Some 0)
     | JBool b \<Rightarrow> Inr (Some (if b then 1 else 0))
     | JNum n \<Rightarrow> Inr (num_time h n)
     | JStr s \<Rightarrow> Inr (date_parse h s)
     | _ \<Rightarrow> bind (String_of h v) (\<lambda>s. Inr (date_parse h s)))"

text \<open>\<open>toISOString()\<close> throws a \<open>RangeError\<close> on an invalid date.\<close>

definition toISOString :: "'n host \<Rightarrow> int option \<Rightarrow> js_error + jsstring" where
  "toISOString h t = (case t of None \<Rightarrow> Inl RangeError | Some ms \<Rightarrow> Inr (to_iso h ms))"

section \<open>Export and import\<close>

text \<open>
  The text of a file enters the program through \<open>JSON.parse\<close> only, and the text
  \<open>exportData\<close> writes is made by \<open>JSON.stringify\<close> only. A text is therefore given by
  what \<open>JSON.parse\<close> makes of it: a \<open>SyntaxError\<close>, or a value. \<open>JSON.stringify\<close> writes a
  text that parses to the value it was given, with every property whose value is
  \<open>undefined\<close> left out.
\<close>

datatype 'n file_text = NotJSON | JSON "'n jsval"

definition lockable_json :: "lockable \<Rightarrow> 'n jsval" where
  "lockable_json l =
    JObj [(str ''id'', JStr (lockable_id l)),
          (str ''name'', JStr (name l)),
          (str ''icon'', JStr (icon l)),
          (str ''color'', case color l of None \<Rightarrow> JNull | Some c \<Rightarrow> JStr c)]"

definition entry_json :: "entry \<Rightarrow> 'n jsval" where
  "entry_json e =
    JObj ([(str ''id'', JStr (entry_id e)),
           (str ''lockableId'', JStr (lockableId e)),
           (str ''tsISO'', JStr (tsISO e))] @
          (case entry_note e of None \<Rightarrow> [] | Some n \<Rightarrow> [(str ''note'', JStr n)]))"

definition prefs_json :: "preferences \<Rightarrow> 'n jsval" where
  "prefs_json p =
    JObj [(str ''theme'', JStr (theme p)),
          (str ''confirmNote'', JBool (confirmNote p)),
          (str ''quickNoteSuggestions'', JArr (map JStr (quickNoteSuggestions p)))]"

definition document_json :: "document \<Rightarrow> 'n jsval" where
  "document_json d =
    JObj [(str ''lockables'', JArr (map lockable_json (lockables d))),
          (str ''entries'', JArr (map entry_json (entries d))),
          (str ''prefs'', prefs_json (prefs d))]"

text \<open>The text of the file \<open>lock-logger-data.json\<close> that \<open>exportData\<close> offers for download.\<close>

definition exportData :: "document \<Rightarrow> 'n file_text" where
  "exportData d = JSON (document_json d)"

text \<open>
  What the environment returns during one import: the \<open>k\<close>-th call of \<open>uid()\<close> returns
  \<open>uid_at k\<close>, the \<open>k\<close>-th \<open>new Date()\<close> reads the clock at \<open>now_at k\<close>. The functions
  below count the calls made so far.
\<close>

record inputs =
  uid_at :: "nat \<Rightarrow> jsstring"
  now_at :: "nat \<Rightarrow> int"

text \<open>\<open>String(v || uid())\<close>, with the number of calls of \<open>uid()\<close> after it.\<close>

definition string_or_uid :: "'n host \<Rightarrow> inputs \<Rightarrow> nat \<Rightarrow> 'n jsval \<Rightarrow> js_error + jsstring \<times> nat" where
  "string_or_uid h orc k v =
    (if truthy h v then bind (String_of h v) (\<lambda>s. Inr (s, k))
     else Inr (uid_at orc k, Suc k))"

text \<open>\<open>String(v || dflt)\<close> for a string literal \<open>dflt\<close>.\<close>

definition string_or :: "'n host \<Rightarrow> 'n jsval \<Rightarrow> jsstring \<Rightarrow> js_error + jsstring" where
  "string_or h v dflt = (if truthy h v then String_of h v else Inr dflt)"

definition import_lockable ::
  "'n host \<Rightarrow> inputs \<Rightarrow> nat \<Rightarrow> 'n jsval \<Rightarrow> js_error + lockable \<times> nat" where
  "import_lockable h orc k l =
    bind (get_prop l (str ''id'')) (\<lambda>v_id.
    bind (string_or_uid h orc k v_id) (\<lambda>(i, k').
    bind (get_prop l (str ''name'')) (\<lambda>v_name.
    bind (string_or h v_name (str ''Sin nombre'')) (\<lambda>n.
    bind (get_prop l (str ''icon'')) (\<lambda>v_icon.
    bind (string_or h v_icon padlock) (\<lambda>ic.
    bind (get_prop l (str ''color'')) (\<lambda>v_color.
    bind (string_or h v_color (str ''#0ea5e9'')) (\<lambda>c.
    Inr (\<lparr>lockable_id = i, name = n, icon = ic, color = Some c\<rparr>, k')))))))))"

fun import_lockables ::
  "'n host \<Rightarrow> inputs \<Rightarrow> nat \<Rightarrow> 'n jsval list \<Rightarrow> js_error + lockable list \<times> nat" where
  "import_lockables h orc k [] = Inr ([], k)"
| "import_lockables h orc k (l # ls) =
     bind (import_lockable h orc k l) (\<lambda>(x, k').
     bind (import_lockables h orc k' ls) (\<lambda>(xs, k'').
     Inr (x # xs, k'')))"

text \<open>\<open>data.lockables[0]\<close>: \<open>undefined\<close> for the empty array.\<close>

definition first_of :: "'n jsval list \<Rightarrow> 'n jsval" where
  "first_of xs = (case xs of [] \<Rightarrow> JUndefined | x # _ \<Rightarrow> x)"

text \<open>\<open>e.lockableId || data.lockables[0]?.id || 'casa'\<close>.\<close>

definition lockableId_or :: "'n host \<Rightarrow> 'n jsval \<Rightarrow> 'n jsval list \<Rightarrow> 'n jsval" where
  "lockableId_or h v ls =
    (if truthy h v then v
     else (let f = opt_prop (first_of ls) (str ''id'')
           in if truthy h f then f else JStr (str ''casa'')))"

text \<open>
  \<open>new Date(e.tsISO || new Date()).toISOString()\<close>, with the number of clock reads after
  it: the clock is read only when \<open>e.tsISO\<close> is falsy.
\<close>

definition tsISO_or_now ::
  "'n host \<Rightarrow> inputs \<Rightarrow> nat \<Rightarrow> 'n jsval \<Rightarrow> js_error + jsstring \<times> nat" where
  "tsISO_or_now h orc c v =
    (if truthy h v
     then bind (date_value h v) (\<lambda>t. bind (toISOString h t) (\<lambda>s. Inr (s, c)))
     else bind (toISOString h (Some (now_at orc c))) (\<lambda>s. Inr (s, Suc c)))"

definition import_entry ::
  "'n host \<Rightarrow> inputs \<Rightarrow> 'n jsval list \<Rightarrow> nat \<times> nat \<Rightarrow> 'n jsval \<Rightarrow> js_error + entry \<times> nat \<times> nat" where
  "import_entry h orc ls kc e =
    bind (get_prop e (str ''id'')) (\<lambda>v_id.
    bind (string_or_uid h orc (fst kc) v_id) (\<lambda>(i, k').
    bind (get_prop e (str ''lockableId'')) (\<lambda>v_lock.
    bind (String_of h (lockableId_or h v_lock ls)) (\<lambda>li.
    bind (get_prop e (str ''tsISO'')) (\<lambda>v_ts.
    bind (tsISO_or_now h orc (snd kc) v_ts) (\<lambda>(ts, c').
    bind (get_prop e (str ''note'')) (\<lambda>v_note.
    bind (if truthy h v_note then bind (String_of h v_note) (\<lambda>s. Inr (Some s)) else Inr None)
      (\<lambda>n.
    Inr (\<lparr>entry_id = i, lockableId = li, tsISO = ts, entry_note = n\<rparr>, k', c')))))))))"

fun import_entries ::
  "'n host \<Rightarrow> inputs \<Rightarrow> 'n jsval list \<Rightarrow> nat \<times> nat \<Rightarrow> 'n jsval list \<Rightarrow>
     js_error + entry list \<times> nat \<times> nat" where
  "import_entries h orc ls kc [] = Inr ([], kc)"
| "import_entries h orc ls kc (e # es) =
     bind (import_entry h orc ls kc e) (\<lambda>(x, kc').
     bind (import_entries h orc ls kc' es) (\<lambda>(xs, kc'').
     Inr (x # xs, kc'')))"

fun strings_of :: "'n host \<Rightarrow> 'n jsval list \<Rightarrow> js_error + jsstring list" where
  "strings_of h [] = Inr []"
| "strings_of h (v # vs) =
     bind (String_of h v) (\<lambda>s. bind (strings_of h vs) (\<lambda>ss. Inr (s # ss)))"

definition import_prefs :: "'n host \<Rightarrow> 'n jsval \<Rightarrow> js_error + preferences" where
  "import_prefs h data =
    bind (get_prop data (str ''prefs'')) (\<lambda>p.
    let t = opt_prop p (str ''theme'');
        q = opt_prop p (str ''quickNoteSuggestions'')
    in bind (if isArray q then strings_of h (elements q) else Inr default_suggestions) (\<lambda>qs.
       Inr \<lparr>theme = (case t of
                       JStr s \<Rightarrow> if s \<in> {str ''system'', str ''light'', str ''dark''} then s
                                 else str ''system''
                     | _ \<Rightarrow> str ''system''),
            confirmNote = truthy h (opt_prop p (str ''confirmNote'')),
            quickNoteSuggestions = qs\<rparr>))"

text \<open>The body of the \<open>try\<close> block after \<open>JSON.parse\<close>: the Document to set, or the error thrown.\<close>

definition import_document :: "'n host \<Rightarrow> inputs \<Rightarrow> 'n jsval \<Rightarrow> js_error + document" where
  "import_document h orc data =
    bind (get_prop data (str ''lockables'')) (\<lambda>ls.
    if \<not> isArray ls then Inl (Error formato_invalido)
    else bind (get_prop data (str ''entries'')) (\<lambda>es.
    if \<not> isArray es then Inl (Error formato_invalido)
    else bind (import_lockables h orc 0 (elements ls)) (\<lambda>(ls', k).
         bind (import_entries h orc (elements ls) (k, 0) (elements es)) (\<lambda>(es', kc).
         bind (import_prefs h data) (\<lambda>p.
         Inr \<lparr>lockables = ls', entries = es', prefs = p\<rparr>)))))"

text \<open>
  \<open>importData\<close>, from the file chosen (\<open>None\<close> when the input holds no file) to the
  Document after it and the error whose message \<open>alert\<close> shows after
  \<open>No se pudo importar:\<close>, if any.
\<close>

definition importData ::
  "'n host \<Rightarrow> inputs \<Rightarrow> 'n file_text option \<Rightarrow> document \<Rightarrow> document \<times> js_error option" where
  "importData h orc file d =
    (case file of
       None \<Rightarrow> (d, None)
     | Some NotJSON \<Rightarrow> (d, Some SyntaxError)
     | Some (JSON data) \<Rightarrow>
         (case import_document h orc data of
            Inl err \<Rightarrow> (d, Some err)
          | Inr d' \<Rightarrow> (d', None)))"

text \<open>The condition of the check \<open>Array.isArray(data.lockables)\<close> and
  \<open>Array.isArray(data.entries)\<close>, on any value: both properties are there and are arrays.\<close>

definition top_level_valid :: "'n jsval \<Rightarrow> bool" where
  "top_level_valid data =
     (isArray (opt_prop data (str ''lockables'')) \<and> isArray (opt_prop data (str ''entries'')))"

text \<open>Inputs for evaluating an import: the \<open>k\<close>-th identifier is \<open>uid\<close> followed by \<open>k\<close>, and
  the clock starts at 2024-01-01T00:00:00.000Z and advances by a millisecond at each read.\<close>

definition ref_inputs :: inputs where
  "ref_inputs = \<lparr>uid_at = (\<lambda>k. str ''uid'' @ decimal k), now_at = (\<lambda>k. 1704067200000 + int k)\<rparr>"

subsection \<open>Well-formed Documents\<close>

text \<open>
  The Documents of the round trip: every lockable has a non-empty \<open>id\<close>, \<open>name\<close>, \<open>icon\<close>
  and \<open>color\<close>; every entry has a non-empty \<open>id\<close> and \<open>lockableId\<close>, a \<open>tsISO\<close> that
  \<open>Date\<close> reads as a valid date, and a \<open>note\<close> that is absent or not empty; the theme is
  one of the three.
\<close>

definition well_formed_lockable :: "lockable \<Rightarrow> bool" where
  "well_formed_lockable l =
    (lockable_id l \<noteq> [] \<and> name l \<noteq> [] \<and> icon l \<noteq> [] \<and>
     (case color l of None \<Rightarrow> False | Some c \<Rightarrow> c \<noteq> []))"

definition well_formed_entry :: "'n host \<Rightarrow> entry \<Rightarrow> bool" where
  "well_formed_entry h e =
    (entry_id e \<noteq> [] \<and> lockableId e \<noteq> [] \<and>
     tsISO e \<noteq> [] \<and> date_parse h (tsISO e) \<noteq> None \<and>
     entry_note e \<noteq> Some [])"

definition well_formed_prefs :: "preferences \<Rightarrow> bool" where
  "well_formed_prefs p = (theme p \<in> {str ''system'', str ''light'', str ''dark''})"

definition well_formed :: "'n host \<Rightarrow> document \<Rightarrow> bool" where
  "well_formed h d =
    (list_all well_formed_lockable (lockables d) \<and>
     list_all (well_formed_entry h) (entries d) \<and>
     well_formed_prefs (prefs d))"

text \<open>A timestamp read by \<open>Date\<close> and printed again by \<open>toISOString\<close>; a Document whose
  timestamps are all printed that way already.\<close>

definition reprinted :: "'n host \<Rightarrow> jsstring \<Rightarrow> jsstring" where
  "reprinted h s = (case date_parse h s of None \<Rightarrow> s | Some t \<Rightarrow> to_iso h t)"

definition reprint_timestamps :: "'n host \<Rightarrow> document \<Rightarrow> document" where
  "reprint_timestamps h d = d\<lparr>entries := map (\<lambda>e. e\<lparr>tsISO := reprinted h (tsISO e)\<rparr>) (entries d)\<rparr>"

definition canonical :: "'n host \<Rightarrow> document \<Rightarrow> bool" where
  "canonical h d = list_all (\<lambda>e. reprinted h (tsISO e) = tsISO e) (entries d)"

section \<open>Derived views\<close>

subsection \<open>The streak\<close>

text \<open>
  \<open>daysWithEntry\<close>: the local midnights of the entries' days, as time values; an entry
  whose \<open>tsISO\<close> is not a date contributes \<open>NaN\<close>.
\<close>

definition daysWithEntry :: "'n host \<Rightarrow> document \<Rightarrow> int option list" where
  "daysWithEntry h d =
     map (\<lambda>e. map_option (start_of_day h) (date_parse h (tsISO e))) (entries d)"

text \<open>\<open>date.setDate(date.getDate() - 1)\<close> on a date that may be invalid already.\<close>

definition step_back :: "'n host \<Rightarrow> int option \<Rightarrow> int option" where
  "step_back h date = (case date of None \<Rightarrow> None | Some t \<Rightarrow> prev_day h t)"

text \<open>The \<open>while\<close> loop; \<open>Set.prototype.has\<close> finds \<open>NaN\<close> in a set that holds it. A loop
  that does not end has the value \<open>None\<close>.\<close>

partial_function (option) streak_loop ::
  "'n host \<Rightarrow> int option list \<Rightarrow> int option \<Rightarrow> nat \<Rightarrow> nat option" where
  "streak_loop h days date count =
     (if date \<in> set days then streak_loop h days (step_back h date) (count + 1)
      else Some count)"

declare streak_loop.simps [code]

text \<open>The streak shown when the clock reads \<open>now\<close>.\<close>

definition streak :: "'n host \<Rightarrow> int \<Rightarrow> document \<Rightarrow> nat option" where
  "streak h now d =
     (if entries d = [] then Some 0
      else streak_loop h (daysWithEntry h d) (Some (start_of_day h now)) 0)"

text \<open>The local midnight \<open>k\<close> days before the day of \<open>now\<close>, as the loop reaches it, and
  whether an entry falls on a day.\<close>

definition day_back :: "'n host \<Rightarrow> nat \<Rightarrow> int \<Rightarrow> int option" where
  "day_back h k now = (step_back h ^^ k) (Some (start_of_day h now))"

definition has_entry_on :: "'n host \<Rightarrow> document \<Rightarrow> int option \<Rightarrow> bool" where
  "has_entry_on h d day = (day \<in> set (daysWithEntry h d))"

subsection \<open>Text colour on a lockable's button\<close>

text \<open>\<open>StrWhiteSpaceChar\<close>: the white space and line terminators that \<open>parseInt\<close> skips.\<close>

definition is_white_space :: "16 word \<Rightarrow> bool" where
  "is_white_space c =
    (c \<in> {0x09, 0x0A, 0x0B, 0x0C, 0x0D, 0x20, 0xA0, 0x1680, 0x2028, 0x2029, 0x202F, 0x205F,
           0x3000, 0xFEFF} \<or> (0x2000 \<le> c \<and> c \<le> 0x200A))"

definition hex_digit :: "16 word \<Rightarrow> nat option" where
  "hex_digit c =
    (if 0x30 \<le> c \<and> c \<le> 0x39 then Some (unat c - 0x30)
     else if 0x61 \<le> c \<and> c \<le> 0x66 then Some (unat c - 0x61 + 10)
     else if 0x41 \<le> c \<and> c \<le> 0x46 then Some (unat c - 0x41 + 10)
     else None)"

fun hex_value :: "nat \<Rightarrow> jsstring \<Rightarrow> nat" where
  "hex_value acc [] = acc"
| "hex_value acc (c # cs) =
     (case hex_digit c of None \<Rightarrow> acc | Some v \<Rightarrow> hex_value (16 * acc + v) cs)"

text \<open>
  \<open>parseInt(s, 16)\<close>, \<open>None\<close> for \<open>NaN\<close>: leading white space is skipped, a sign is read, a
  prefix \<open>0x\<close> or \<open>0X\<close> is dropped, and the hexadecimal digits up to the first other
  unit are the number; with no digit there the result is \<open>NaN\<close>.
\<close>

definition parseInt16 :: "jsstring \<Rightarrow> int option" where
  "parseInt16 s =
    (let s1 = dropWhile is_white_space s;
         negative = (take 1 s1 = str ''-'');
         s2 = (if take 1 s1 = str ''+'' \<or> take 1 s1 = str ''-'' then drop 1 s1 else s1);
         s3 = (if take 2 s2 = str ''0x'' \<or> take 2 s2 = str ''0X'' then drop 2 s2 else s2)
     in case s3 of
          [] \<Rightarrow> None
        | c # _ \<Rightarrow>
            if hex_digit c = None then None
            else Some ((if negative then - 1 else 1) * int (hex_value 0 s3)))"

definition slice :: "jsstring \<Rightarrow> nat \<Rightarrow> nat \<Rightarrow> jsstring" where
  "slice s i j = take (j - i) (drop i s)"

text \<open>
  The products and the sum are integers below \<open>2 ^ 53\<close>, exact as doubles, and the
  division by 1000 rounds to the nearest double, which keeps the order and leaves 140
  where it is: the comparison \<open>yiq >= 140\<close> on doubles is the comparison of the exact
  quotient. \<open>NaN >= 140\<close> is false.
\<close>

definition yiq :: "int \<Rightarrow> int \<Rightarrow> int \<Rightarrow> real" where
  "yiq r g b = real_of_int (r * 299 + g * 587 + b * 114) / 1000"

text \<open>\<open>hex\<close> is \<open>None\<close> for \<open>null\<close>, on which \<open>hex.replace\<close> throws and the \<open>catch\<close> answers.\<close>

definition readableTextColor :: "jsstring option \<Rightarrow> jsstring" where
  "readableTextColor hex =
    (case hex of
       None \<Rightarrow> str ''#ffffff''
     | Some hx \<Rightarrow>
         (let c = remove1 0x23 hx
          in case (parseInt16 (slice c 0 2), parseInt16 (slice c 2 4), parseInt16 (slice c 4 6)) of
               (Some r, Some g, Some b) \<Rightarrow>
                 if yiq r g b \<ge> 140 then str ''#18181b'' else str ''#ffffff''
             | _ \<Rightarrow> str ''#ffffff''))"

section \<open>The service worker\<close>

text \<open>
  The \<open>fetch\<close> listener. \<open>caches.match\<close> takes a request or a URL and resolves to a
  response or to \<open>undefined\<close> (\<open>None\<close>); \<open>fetch\<close> resolves to a response or rejects
  (\<open>None\<close>). The listener either returns without calling \<open>respondWith\<close>, and the browser
  handles the request itself, or answers with what its promise resolves to.
\<close>

record request =
  request_method :: jsstring
  url :: jsstring

datatype request_info = Request request | Url jsstring

datatype 'r handled = NotIntercepted | RespondWith "'r option"

definition on_fetch ::
  "(request_info \<Rightarrow> 'r option) \<Rightarrow> (request \<Rightarrow> 'r option) \<Rightarrow> request \<Rightarrow> 'r handled" where
  "on_fetch caches_match fetch req =
    (if request_method req \<noteq> str ''GET'' then NotIntercepted
     else RespondWith
       (case caches_match (Request req) of
          Some cached \<Rightarrow> Some cached
        | None \<Rightarrow>
            (case fetch req of
               Some response \<Rightarrow> Some response
             | None \<Rightarrow> caches_match (Url (str ''./index.html'')))))"

section \<open>Concrete Documents\<close>

text \<open>The first lockable of the default Document, and two clicks on its button, a day apart:
  on 2024-01-01 and 2024-01-02 at midnight UTC, the second answered with a note.\<close>

definition casa :: lockable where
  "casa = \<lparr>lockable_id = str ''casa'', name = str ''Casa'', icon = [0xD83C, 0xDFE0],
            color = Some (str ''#0ea5e9'')\<rparr>"

definition click1 :: click where
  "click1 = \<lparr>click_uid = str ''k3j9x0q1a'', click_now = 1704067200000, click_prompt = None\<rparr>"

definition click2 :: click where
  "click2 = \<lparr>click_uid = str ''z8w2m4n6b'', click_now = 1704153600000,
              click_prompt = Some (str ''Doble chequeo'')\<rparr>"

text \<open>A Document at the cap: 200 entries.\<close>

definition full_doc :: document where
  "full_doc = defaultState
     \<lparr>entries := map (\<lambda>i. \<lparr>entry_id = str ''e'' @ decimal i, lockableId = str ''casa'',
                            tsISO = str ''2024-01-01T00:00:00.000Z'', entry_note = None\<rparr>)
                    [0..<200]\<rparr>"

text \<open>A Document with one entry, its timestamp as \<open>toISOString\<close> prints it; and one whose
  timestamp is the same instant written without the milliseconds, which is a date-time of
  ISO 8601 and of the ECMAScript format all the same.\<close>

definition logged_doc :: document where
  "logged_doc = defaultState
     \<lparr>entries := [\<lparr>entry_id = str ''k3j9x0q1a'', lockableId = str ''casa'',
                    tsISO = str ''2024-01-01T00:00:00.000Z'',
                    entry_note = Some (str ''Doble chequeo'')\<rparr>]\<rparr>"

definition short_ts_doc :: document where
  "short_ts_doc = defaultState
     \<lparr>entries := [\<lparr>entry_id = str ''k3j9x0q1a'', lockableId = str ''casa'',
                    tsISO = str ''2024-01-01T00:00:00Z'', entry_note = None\<rparr>]\<rparr>"

text \<open>The files of two imports: one with 201 entries, each an empty object, and one whose
  only entry has a \<open>tsISO\<close> that is no date.\<close>

definition long_file :: "int file_text" where
  "long_file =
     JSON (JObj [(str ''lockables'', JArr []),
                 (str ''entries'', JArr (replicate 201 (JObj [])))])"

definition bad_timestamp_file :: "int file_text" where
  "bad_timestamp_file =
     JSON (JObj [(str ''lockables'', JArr []),
                 (str ''entries'', JArr [JObj [(str ''tsISO'', JStr (str ''garbage''))]])])"

text \<open>The clock at noon UTC on 2024-01-03; a Document with an entry on that day and one on
  the day before, and a Document with an entry on each of the two days before that day.\<close>

definition noon_jan3 :: int where
  "noon_jan3 = 1704283200000"

definition entry_at :: "string \<Rightarrow> entry" where
  "entry_at ts = \<lparr>entry_id = str ''k3j9x0q1a'', lockableId = str ''casa'', tsISO = str ts,
                   entry_note = None\<rparr>"

definition today_and_yesterday :: document where
  "today_and_yesterday = defaultState
     \<lparr>entries := [entry_at ''2024-01-03T08:15:00.000Z'', entry_at ''2024-01-02T20:30:00.000Z'']\<rparr>"

definition two_days_before :: document where
  "two_days_before = defaultState
     \<lparr>entries := [entry_at ''2024-01-02T20:30:00.000Z'', entry_at ''2024-01-01T07:00:00.000Z'']\<rparr>"

text \<open>A cache that holds the script and the index document, and a network that is down.\<close>

definition asset_cache :: "request_info \<Rightarrow> string option" where
  "asset_cache i =
    (case i of
       Request r \<Rightarrow>
         if url r = str ''./main.js'' then Some ''the script''
         else if url r = str ''./index.html'' then Some ''the index document''
         else None
     | Url u \<Rightarrow>
         if u = str ''./main.js'' then Some ''the script''
         else if u = str ''./index.html'' then Some ''the index document''
         else None)"

definition offline :: "request \<Rightarrow> string option" where
  "offline r = None"

section \<open>A host with a skipped midnight\<close>

text \<open>
  A browser in the time zone America/Santiago around Sunday 8 September 2024. The clocks
  there went from 24:00 of 7 September (UTC-4) to 01:00 of 8 September (UTC-3), at
  2024-09-08T04:00:00Z, so that the local times 00:00 to 00:59 of 8 September did not
  exist. Local time is kept as the time value that \<open>getFullYear\<close> to \<open>getMilliseconds\<close>
  read; a local time that does not exist, or exists twice, is taken with the offset in
  force before the change, as \<open>setHours\<close> and \<open>setDate\<close> take it. Only this change of
  the clocks is modelled.
\<close>

definition spring_forward :: int where
  "spring_forward = 1725768000000"

definition santiago_local :: "int \<Rightarrow> int" where
  "santiago_local t = (if t < spring_forward then t - 4 * 3600000 else t - 3 * 3600000)"

definition santiago_utc :: "int \<Rightarrow> int" where
  "santiago_utc l =
    (if l + 4 * 3600000 < spring_forward then l + 4 * 3600000
     else if spring_forward \<le> l + 3 * 3600000 then l + 3 * 3600000
     else l + 4 * 3600000)"

text \<open>The local calendar day of a time value there, counted in days.\<close>

definition santiago_day :: "int \<Rightarrow> int" where
  "santiago_day t = santiago_local t div ms_per_day"

definition santiago_host :: "int host" where
  "santiago_host = ref_host
    \<lparr>start_of_day := (\<lambda>t. santiago_utc (santiago_local t - santiago_local t mod ms_per_day)),
     prev_day := (\<lambda>t. time_clip (santiago_utc (santiago_local t - ms_per_day)))\<rparr>"

text \<open>The clock at noon in Santiago on 8 September 2024 (15:00 UTC), and a Document
  with an entry at 11:00 local time of that day and one at 11:00 local time of the day
  before (15:00 UTC, the offset still being four hours).\<close>

definition sunday_noon :: int where
  "sunday_noon = 1725807600000"

definition santiago_doc :: document where
  "santiago_doc = defaultState
     \<lparr>entries := [entry_at ''2024-09-08T14:00:00.000Z'', entry_at ''2024-09-07T15:00:00.000Z'']\<rparr>"

section \<open>Strings and results\<close>

lemma of_char_16_eq_iff: "(of_char c :: 16 word) = of_char c' \<longleftrightarrow> c = c'"
proof
  assume h: "(of_char c :: 16 word) = of_char c'"
  have u: "unat (of_char x :: 16 word) = of_char x" for x
    by (cases x) (simp add: unsigned_of_nat take_bit_eq_mod)
  from h have "(of_char c :: nat) = of_char c'" by (metis u)
  then show "c = c'" by simp
qed simp

lemma str_eq_iff [simp]: "str a = str b \<longleftrightarrow> a = b"
proof (induction a arbitrary: b)
  case Nil then show ?case by (auto simp: str_def)
next
  case (Cons x xs)
  then show ?case by (cases b) (auto simp: str_def of_char_16_eq_iff)
qed

lemma str_eq_Nil_iff [simp]: "str a = [] \<longleftrightarrow> a = []" "[] = str a \<longleftrightarrow> a = []"
  by (auto simp: str_def)

lemma bind_Inl [simp]: "bind (Inl e) f = Inl e"
  by (simp add: bind_def)

lemma bind_Inr [simp]: "bind (Inr x) f = f x"
  by (simp add: bind_def)

section \<open>Properties of the mutations\<close>

lemma recordEntry_prefs: "prefs (recordEntry h c l d) = prefs d"
  by (simp add: recordEntry_def)

lemma recordEntry_lockables: "lockables (recordEntry h c l d) = lockables d"
  by (simp add: recordEntry_def)

lemma new_entry_recordEntry: "new_entry h c l (recordEntry h c' l' d) = new_entry h c l d"
  by (simp add: new_entry_def recordEntry_def)

lemma recordEntry_length_le: "length (entries (recordEntry h c l d)) \<le> 200"
  by (simp add: recordEntry_def)

lemma addLockable_entries: "entries (addLockable n i c u d) = entries d"
  by (simp add: addLockable_def split: option.splits)

lemma undoLast_length_le: "length (entries (undoLast d)) \<le> length (entries d)"
  by (simp add: undoLast_def)

lemma updateTheme_entries: "entries (updateTheme t d) = entries d"
  by (simp add: updateTheme_def)

text \<open>
  C10. \<open>updateTheme\<close> changes \<open>prefs.theme\<close> and nothing else: the lockables, the entries,
  \<open>confirmNote\<close> and \<open>quickNoteSuggestions\<close> are the ones of the Document before.
\<close>

theorem updateTheme_frame:
  "lockables (updateTheme t d) = lockables d \<and>
   entries (updateTheme t d) = entries d \<and>
   confirmNote (prefs (updateTheme t d)) = confirmNote (prefs d) \<and>
   quickNoteSuggestions (prefs (updateTheme t d)) = quickNoteSuggestions (prefs d) \<and>
   theme (prefs (updateTheme t d)) = t"
  by (simp add: updateTheme_def)

lemma take_append_take: "take n (xs @ take n ys) = take n (xs @ ys)"
  by (simp add: min_def)

lemma record_all_prefs: "prefs (record_all h cs d) = prefs d"
  by (induction cs arbitrary: d) (auto simp: recordEntry_prefs)

lemma record_all_entries:
  "length (entries d) \<le> 200 \<Longrightarrow>
   entries (record_all h cs d) =
     take 200 (rev (map (\<lambda>(c, l). new_entry h c l d) cs) @ entries d)"
proof (induction cs arbitrary: d)
  case Nil
  then show ?case by simp
next
  case (Cons x cs)
  obtain c l where x: "x = (c, l)" by (cases x)
  let ?d = "recordEntry h c l d"
  let ?f = "\<lambda>(c, l). new_entry h c l d"
  have same: "(\<lambda>(c, l). new_entry h c l ?d) = ?f"
    by (simp add: fun_eq_iff new_entry_recordEntry)
  have made: "entries ?d = take 200 (new_entry h c l d # entries d)"
    by (simp add: recordEntry_def)
  have "entries (record_all h (x # cs) d) = entries (record_all h cs ?d)"
    by (simp add: x)
  also have "\<dots> = take 200 (rev (map ?f cs) @ entries ?d)"
    using Cons.IH [of ?d, OF recordEntry_length_le] by (simp only: same)
  also have "\<dots> = take 200 (rev (map ?f cs) @ take 200 (new_entry h c l d # entries d))"
    by (simp only: made)
  also have "\<dots> = take 200 (rev (map ?f cs) @ (new_entry h c l d # entries d))"
    by (rule take_append_take)
  also have "\<dots> = take 200 (rev (map ?f (x # cs)) @ entries d)"
    by (simp add: x)
  finally show ?case .
qed

text \<open>
  C2. Starting from a Document with no entries, after \<open>N\<close> calls of \<open>recordEntry\<close> the
  entries are the entries made by those calls, the newest first, cut to the first 200;
  there are \<open>min N 200\<close> of them.
\<close>

theorem record_all_newest_first:
  assumes "entries d = []"
  shows "entries (record_all h cs d) = take 200 (rev (map (\<lambda>(c, l). new_entry h c l d) cs)) \<and>
         length (entries (record_all h cs d)) = min (length cs) 200"
  using assms by (simp add: record_all_entries)

theorem record_all_newest_first_witness:
  "entries defaultState = [] \<and>
   entries (record_all ref_host [(click1, casa), (click2, casa)] defaultState) =
     [new_entry ref_host click2 casa defaultState, new_entry ref_host click1 casa defaultState] \<and>
   length (entries (record_all ref_host [(click1, casa), (click2, casa)] defaultState)) = 2"
  using record_all_newest_first [of defaultState ref_host "[(click1, casa), (click2, casa)]"]
  by (simp add: defaultState_def)

text \<open>
  C4, as the code has it. \<open>undoLast\<close> after \<open>recordEntry\<close> drops the entry just made, and
  with it whatever the cap of 200 cut off: the entries are the first 199 of the entries
  before, and every other field is the one before. On a Document with fewer than 200
  entries the two calls together change nothing.
\<close>

theorem undoLast_recordEntry:
  "undoLast (recordEntry h c l d) = d\<lparr>entries := take 199 (entries d)\<rparr> \<and>
   (length (entries d) < 200 \<longrightarrow> undoLast (recordEntry h c l d) = d)"
proof -
  have "drop 1 (take 200 (e # es)) = take 199 es" for e :: entry and es
    by (simp add: drop_take)
  then show ?thesis
    by (simp add: undoLast_def recordEntry_def)
qed

theorem undoLast_recordEntry_witness:
  "length (entries defaultState) < 200 \<and>
   undoLast (recordEntry ref_host click1 casa defaultState) = defaultState"
  using undoLast_recordEntry [of ref_host click1 casa defaultState]
  by (simp add: defaultState_def)

text \<open>At the cap the two calls do not give the Document back: the oldest entry is gone.\<close>

theorem undoLast_recordEntry_at_cap:
  "length (entries full_doc) = 200 \<and>
   undoLast (recordEntry ref_host click1 casa full_doc) \<noteq> full_doc"
proof -
  have "length (entries (undoLast (recordEntry ref_host click1 casa full_doc))) = 199"
    by (simp add: undoLast_def recordEntry_def full_doc_def)
  moreover have "length (entries full_doc) = 200"
    by (simp add: full_doc_def)
  ultimately show ?thesis by auto
qed

section \<open>Properties of the import\<close>

lemma import_document_invalid:
  assumes "\<not> top_level_valid data"
  shows "import_document h orc data =
           Inl (if data = JNull \<or> data = JUndefined then TypeError else Error formato_invalido)"
  using assms
  by (cases data) (auto simp: import_document_def top_level_valid_def get_prop_def opt_prop_def isArray_def)

text \<open>
  C3, as the code has it. When the parsed file does not have both \<open>lockables\<close> and
  \<open>entries\<close> as arrays, the import stops with an error whose message is shown to the
  user, and the Document is the one before. For every parsed value but \<open>null\<close> the error
  is the program's own \<open>Formato invalido\<close>; for \<open>null\<close> it is the \<open>TypeError\<close> that
  reading \<open>data.lockables\<close> throws before the check is reached.
\<close>

theorem importData_invalid_unchanged:
  assumes "\<not> top_level_valid data"
  shows "importData h orc (Some (JSON data)) d =
           (d, Some (if data = JNull \<or> data = JUndefined then TypeError else Error formato_invalido))"
  using assms by (simp add: importData_def import_document_invalid)

theorem importData_invalid_unchanged_witness:
  "\<not> top_level_valid (JObj [(str ''entries'', JArr [])] :: int jsval) \<and>
   importData ref_host ref_inputs (Some (JSON (JObj [(str ''entries'', JArr [])]))) defaultState =
     (defaultState, Some (Error formato_invalido))"
  using importData_invalid_unchanged
    [of "JObj [(str ''entries'', JArr [])]" ref_host ref_inputs defaultState]
  by (simp add: top_level_valid_def opt_prop_def own_prop_def isArray_def)

text \<open>
  The file \<open>null\<close> has neither array, and the error shown for it is not
  \<open>Formato invalido\<close>.
\<close>

theorem importData_null_file:
  "\<not> top_level_valid (JNull :: int jsval) \<and>
   importData ref_host ref_inputs (Some (JSON JNull)) defaultState = (defaultState, Some TypeError) \<and>
   importData ref_host ref_inputs (Some (JSON JNull)) defaultState
     \<noteq> (defaultState, Some (Error formato_invalido))"
  by (simp add: top_level_valid_def opt_prop_def isArray_def importData_def import_document_def
      get_prop_def)

lemma import_entry_empty:
  "import_entry h orc [] (k, c) (JObj []) =
     Inr (\<lparr>entry_id = uid_at orc k, lockableId = str ''casa'',
           tsISO = to_iso h (now_at orc c), entry_note = None\<rparr>, Suc k, Suc c)"
  by (simp add: import_entry_def get_prop_def own_prop_def string_or_uid_def truthy_def
      lockableId_or_def first_of_def opt_prop_def String_of_def tsISO_or_now_def toISOString_def)

lemma import_entries_replicate:
  "import_entries h orc [] (k, c) (replicate n (JObj [])) =
     Inr (map (\<lambda>i. \<lparr>entry_id = uid_at orc (k + i), lockableId = str ''casa'',
                     tsISO = to_iso h (now_at orc (c + i)), entry_note = None\<rparr>) [0..<n],
          k + n, c + n)"
proof (induction n arbitrary: k c)
  case 0
  then show ?case by simp
next
  case (Suc n)
  have "[0..<Suc n] = 0 # [Suc 0..<Suc n]"
    by (rule upt_conv_Cons) simp
  also have "[Suc 0..<Suc n] = map Suc [0..<n]"
    by (simp only: map_Suc_upt)
  finally show ?case
    by (simp add: import_entry_empty Suc.IH o_def del: upt_Suc)
qed

lemma import_prefs_absent:
  "import_prefs h (JObj [(str ''lockables'', x), (str ''entries'', y)]) =
     Inr \<lparr>theme = str ''system'', confirmNote = False, quickNoteSuggestions = default_suggestions\<rparr>"
  by (simp add: import_prefs_def get_prop_def own_prop_def opt_prop_def isArray_def truthy_def)

lemma import_document_replicate:
  "import_document h orc
     (JObj [(str ''lockables'', JArr []), (str ''entries'', JArr (replicate n (JObj [])))]) =
   Inr \<lparr>lockables = [],
        entries = map (\<lambda>i. \<lparr>entry_id = uid_at orc i, lockableId = str ''casa'',
                     tsISO = to_iso h (now_at orc i), entry_note = None\<rparr>) [0..<n],
        prefs = \<lparr>theme = str ''system'', confirmNote = False,
                 quickNoteSuggestions = default_suggestions\<rparr>\<rparr>"
  by (simp add: import_document_def get_prop_def own_prop_def isArray_def elements_def
      import_entries_replicate import_prefs_absent)

lemma import_entries_length:
  "import_entries h orc ls kc xs = Inr (es, kc') \<Longrightarrow> length es = length xs"
proof (induction xs arbitrary: kc es kc')
  case Nil
  then show ?case by simp
next
  case (Cons x xs)
  from Cons.prems obtain e kc1 where e: "import_entry h orc ls kc x = Inr (e, kc1)"
    by (cases "import_entry h orc ls kc x") auto
  with Cons.prems obtain es1 kc2 where es1: "import_entries h orc ls kc1 xs = Inr (es1, kc2)"
    by (cases "import_entries h orc ls kc1 xs") auto
  with e Cons.prems have "es = e # es1" by auto
  with Cons.IH [OF es1] show ?case by simp
qed

lemma import_document_length:
  assumes "import_document h orc data = Inr d'"
  shows "length (entries d') = length (elements (opt_prop data (str ''entries'')))"
proof -
  obtain ps where data: "data = JObj ps"
    using assms by (cases data) (auto simp: import_document_def get_prop_def isArray_def)
  let ?ls = "own_prop ps (str ''lockables'')" and ?es = "own_prop ps (str ''entries'')"
  have arrays: "isArray ?ls" "isArray ?es"
    using assms by (auto simp: data import_document_def get_prop_def split: if_splits)
  from assms arrays obtain ls' k where
    ls: "import_lockables h orc 0 (elements ?ls) = Inr (ls', k)"
    by (cases "import_lockables h orc 0 (elements ?ls)")
       (auto simp: data import_document_def get_prop_def)
  from assms arrays ls obtain es' kc where
    es: "import_entries h orc (elements ?ls) (k, 0) (elements ?es) = Inr (es', kc)"
    by (cases "import_entries h orc (elements ?ls) (k, 0) (elements ?es)")
       (auto simp: data import_document_def get_prop_def)
  from assms arrays ls es have "entries d' = es'"
    by (cases "import_prefs h (JObj ps)") (auto simp: data import_document_def get_prop_def)
  with import_entries_length [OF es] show ?thesis
    by (simp add: data opt_prop_def)
qed

lemma cap_kept_by_mutations:
  assumes "length (entries d) \<le> 200"
  shows "length (entries (recordEntry h c l d)) \<le> 200"
    and "length (entries (addLockable n i c' u d)) \<le> 200"
    and "length (entries (undoLast d)) \<le> 200"
    and "length (entries (updateTheme t d)) \<le> 200"
  using assms undoLast_length_le [of d]
  by (simp_all add: recordEntry_length_le addLockable_entries updateTheme_entries)

text \<open>
  C1, at its last part. \<open>recordEntry\<close> cuts the entries to 200 and \<open>addLockable\<close>,
  \<open>undoLast\<close> and \<open>updateTheme\<close> add none, but \<open>importData\<close> sets the entries it built
  from the file, as many as the file has: the import of a file with 201 entries succeeds
  and leaves a Document with 201 entries.
\<close>

theorem importData_over_cap:
  "length (entries (fst (importData ref_host ref_inputs (Some long_file) defaultState))) = 201 \<and>
   snd (importData ref_host ref_inputs (Some long_file) defaultState) = None"
  by (simp add: importData_def long_file_def import_document_replicate)

lemma tsISO_or_now_missing:
  "tsISO_or_now h orc c JUndefined = Inr (to_iso h (now_at orc c), Suc c)"
  by (simp add: tsISO_or_now_def truthy_def toISOString_def)

lemma tsISO_or_now_invalid:
  "s \<noteq> [] \<Longrightarrow> date_parse h s = None \<Longrightarrow> tsISO_or_now h orc c (JStr s) = Inl RangeError"
  by (simp add: tsISO_or_now_def truthy_def date_value_def toISOString_def)

lemma garbage_invalid: "ref_date_parse (str ''garbage'') = None"
  by code_simp

text \<open>
  C5, where it fails. An entry without \<open>tsISO\<close> gets the current time, since
  \<open>e.tsISO || new Date()\<close> replaces a falsy value. A \<open>tsISO\<close> that is a non-empty string
  and no date is not replaced: \<open>toISOString()\<close> throws a \<open>RangeError\<close> on the invalid
  date, the \<open>catch\<close> shows its message, and nothing is imported.
\<close>

theorem importData_invalid_timestamp:
  "importData ref_host ref_inputs (Some bad_timestamp_file) defaultState =
     (defaultState, Some RangeError)"
  by (simp add: importData_def bad_timestamp_file_def import_document_def get_prop_def
      own_prop_def isArray_def elements_def import_entry_def string_or_uid_def truthy_def
      lockableId_or_def first_of_def opt_prop_def String_of_def tsISO_or_now_invalid
      ref_host_def garbage_invalid)

lemma String_of_JStr: "String_of h (JStr s) = Inr s"
  by (simp add: String_of_def)

lemma string_or_JStr: "s \<noteq> [] \<Longrightarrow> string_or h (JStr s) dflt = Inr s"
  by (simp add: string_or_def truthy_def String_of_def)

lemma string_or_uid_JStr: "s \<noteq> [] \<Longrightarrow> string_or_uid h orc k (JStr s) = Inr (s, k)"
  by (simp add: string_or_uid_def truthy_def String_of_def)

lemma import_lockable_json:
  assumes "well_formed_lockable l"
  shows "import_lockable h orc k (lockable_json l) = Inr (l, k)"
proof -
  obtain c where c: "color l = Some c" "c \<noteq> []"
    using assms by (auto simp: well_formed_lockable_def split: option.splits)
  have "l = \<lparr>lockable_id = lockable_id l, name = name l, icon = icon l, color = Some c\<rparr>"
    using c by (cases l) simp
  then show ?thesis
    using assms c
    by (simp add: import_lockable_def lockable_json_def get_prop_def own_prop_def
        string_or_JStr string_or_uid_JStr well_formed_lockable_def)
qed

lemma import_lockables_json:
  "list_all well_formed_lockable ls \<Longrightarrow>
   import_lockables h orc k (map lockable_json ls) = Inr (ls, k)"
  by (induction ls) (simp_all add: import_lockable_json)

lemma tsISO_or_now_JStr:
  "s \<noteq> [] \<Longrightarrow> date_parse h s = Some t \<Longrightarrow> tsISO_or_now h orc c (JStr s) = Inr (to_iso h t, c)"
  by (simp add: tsISO_or_now_def truthy_def date_value_def toISOString_def)

lemma lockableId_or_JStr: "s \<noteq> [] \<Longrightarrow> String_of h (lockableId_or h (JStr s) ls) = Inr s"
  by (simp add: lockableId_or_def truthy_def String_of_def)

lemma import_entry_json:
  assumes "well_formed_entry h e"
  shows "import_entry h orc ls kc (entry_json e) = Inr (e\<lparr>tsISO := reprinted h (tsISO e)\<rparr>, kc)"
proof -
  obtain i li ts n where e: "e = \<lparr>entry_id = i, lockableId = li, tsISO = ts, entry_note = n\<rparr>"
    by (cases e)
  obtain t where t: "date_parse h ts = Some t"
    using assms by (auto simp: well_formed_entry_def e)
  have ne: "i \<noteq> []" "li \<noteq> []" "ts \<noteq> []" "n \<noteq> Some []"
    using assms by (simp_all add: well_formed_entry_def e)
  show ?thesis
  proof (cases n)
    case None
    then show ?thesis
      using ne t
      by (simp add: e import_entry_def entry_json_def get_prop_def own_prop_def
          string_or_uid_JStr tsISO_or_now_JStr lockableId_or_JStr reprinted_def truthy_def)
  next
    case (Some x)
    then show ?thesis
      using ne t
      by (simp add: e import_entry_def entry_json_def get_prop_def own_prop_def
          string_or_uid_JStr tsISO_or_now_JStr lockableId_or_JStr reprinted_def truthy_def
          String_of_JStr)
  qed
qed

lemma import_entries_json:
  "list_all (well_formed_entry h) es \<Longrightarrow>
   import_entries h orc ls kc (map entry_json es) =
     Inr (map (\<lambda>e. e\<lparr>tsISO := reprinted h (tsISO e)\<rparr>) es, kc)"
  by (induction es) (simp_all add: import_entry_json)

lemma strings_of_JStr: "strings_of h (map JStr ss) = Inr ss"
  by (induction ss) (simp_all add: String_of_def)

lemma import_prefs_json:
  assumes "well_formed_prefs (prefs d)"
  shows "import_prefs h (document_json d) = Inr (prefs d)"
  using assms
  by (cases "prefs d")
     (auto simp: import_prefs_def document_json_def prefs_json_def get_prop_def own_prop_def
      opt_prop_def isArray_def elements_def strings_of_JStr truthy_def well_formed_prefs_def)

lemma canonical_reprint: "canonical h d \<Longrightarrow> reprint_timestamps h d = d"
proof -
  assume "canonical h d"
  then have "map (\<lambda>e. e\<lparr>tsISO := reprinted h (tsISO e)\<rparr>) (entries d) = entries d"
    unfolding canonical_def by (induction "entries d" arbitrary: d) (auto simp: list_all_iff map_idI)
  then show ?thesis by (simp add: reprint_timestamps_def)
qed

text \<open>
  C6, as the code has it. Exporting a well-formed Document and importing the file gives
  the Document back with every timestamp read by \<open>Date\<close> and printed again by
  \<open>toISOString\<close>; the import shows no error. When the timestamps are already as
  \<open>toISOString\<close> prints them, which is how \<open>recordEntry\<close> and \<open>importData\<close> write them, the
  Document after the import is the Document exported.
\<close>

theorem export_import:
  assumes "well_formed h d"
  shows "importData h orc (Some (exportData d)) d0 = (reprint_timestamps h d, None) \<and>
         (canonical h d \<longrightarrow> importData h orc (Some (exportData d)) d0 = (d, None))"
proof -
  have p: "import_prefs h (document_json d) = Inr (prefs d)"
    using assms by (simp add: well_formed_def import_prefs_json)
  have d: "\<lparr>lockables = lockables d, entries = es, prefs = prefs d\<rparr> = d\<lparr>entries := es\<rparr>" for es
    by (cases d) simp
  have "import_document h orc (document_json d) = Inr (reprint_timestamps h d)"
    using assms p [unfolded document_json_def]
    by (simp add: import_document_def well_formed_def reprint_timestamps_def
        document_json_def get_prop_def own_prop_def isArray_def elements_def
        import_lockables_json import_entries_json d)
  then show ?thesis
    by (simp add: importData_def exportData_def canonical_reprint)
qed

lemma well_formed_logged_doc: "well_formed ref_host logged_doc"
  by code_simp

lemma canonical_logged_doc: "canonical ref_host logged_doc"
  by code_simp

theorem export_import_witness:
  "well_formed ref_host logged_doc \<and> canonical ref_host logged_doc \<and>
   importData ref_host ref_inputs (Some (exportData logged_doc)) defaultState = (logged_doc, None)"
  using export_import [of ref_host logged_doc ref_inputs defaultState]
    well_formed_logged_doc canonical_logged_doc
  by blast

text \<open>
  The timestamp \<open>2024-01-01T00:00:00Z\<close> is a valid date-time, and the Document that holds
  it is well-formed; after export and import it reads \<open>2024-01-01T00:00:00.000Z\<close>, so the
  Document is not the one exported.
\<close>

theorem export_import_reprints:
  "well_formed ref_host short_ts_doc \<and>
   importData ref_host ref_inputs (Some (exportData short_ts_doc)) defaultState
     \<noteq> (short_ts_doc, None)"
  by code_simp


section \<open>Properties of the derived views\<close>

lemma streak_loop_walk:
  assumes "\<forall>k<n. (step_back h ^^ k) date \<in> set days"
    and "(step_back h ^^ n) date \<notin> set days"
  shows "streak_loop h days date count = Some (count + n)"
  using assms
proof (induction n arbitrary: date count)
  case 0
  then show ?case by (simp add: streak_loop.simps)
next
  case (Suc n)
  have here: "date \<in> set days"
    using Suc.prems(1) [rule_format, of 0] by simp
  have "\<forall>k<n. (step_back h ^^ k) (step_back h date) \<in> set days"
    using Suc.prems(1) by (auto simp: funpow_swap1 dest: spec [of _ "Suc k" for k])
  moreover have "(step_back h ^^ n) (step_back h date) \<notin> set days"
    using Suc.prems(2) by (simp add: funpow_swap1)
  ultimately have "streak_loop h days (step_back h date) (count + 1) = Some (count + 1 + n)"
    by (rule Suc.IH)
  then show ?case
    using here by (subst streak_loop.simps) simp
qed

text \<open>
  The loop returns on every host whose \<open>setDate(getDate() - 1)\<close> moves a date back in
  time, when every entry's \<open>tsISO\<close> is a date: the days walked are all different, and the
  entries are finitely many.
\<close>

lemma streak_loop_returns:
  assumes earlier: "\<And>t t'. prev_day h t = Some t' \<Longrightarrow> t' < t"
    and dates: "None \<notin> set days"
  shows "\<exists>n. streak_loop h days date count = Some (count + n)"
proof -
  define walk where "walk n = (step_back h ^^ n) date" for n
  have "\<exists>n. walk n \<notin> set days"
  proof (rule ccontr)
    assume "\<not> (\<exists>n. walk n \<notin> set days)"
    then have all: "walk n \<in> set days" for n by simp
    define f where "f n = the (walk n)" for n
    have some: "walk n = Some (f n)" for n
    proof -
      have "walk n \<noteq> None" using all [of n] dates by metis
      then show ?thesis by (auto simp: f_def)
    qed
    have down: "f (Suc n) < f n" for n
    proof -
      have "walk (Suc n) = step_back h (walk n)" by (simp add: walk_def)
      then have "prev_day h (f n) = Some (f (Suc n))"
        by (simp add: some step_back_def)
      then show ?thesis by (rule earlier)
    qed
    have "- f m < - f n" if "m < n" for m n
      by (rule lift_Suc_mono_less [of "\<lambda>n. - f n", OF _ that]) (simp add: down)
    then have "inj f"
      by (auto simp: inj_on_def) (metis less_irrefl linorder_neqE_nat)
    then have "infinite (range f)"
      using finite_imageD [of f UNIV] infinite_UNIV_nat by blast
    moreover have "range f \<subseteq> the ` set days"
      using all some by (auto simp: image_iff) (metis option.sel)
    ultimately show False
      using finite_subset by blast
  qed
  then obtain n where n: "walk n \<notin> set days" and least: "\<forall>k<n. walk k \<in> set days"
    using exists_least_iff [of "\<lambda>n. walk n \<notin> set days"] by auto
  then have "streak_loop h days date count = Some (count + n)"
    by (intro streak_loop_walk) (simp_all add: walk_def)
  then show ?thesis ..
qed

lemma streak_returns:
  assumes "\<And>t t'. prev_day h t = Some t' \<Longrightarrow> t' < t"
    and "None \<notin> set (daysWithEntry h d)"
  shows "\<exists>n. streak h now d = Some n"
  using streak_loop_returns [OF assms, where date = "Some (start_of_day h now)" and count = 0]
  by (auto simp: streak_def)

lemma ref_host_moves_back: "prev_day ref_host t = Some t' \<Longrightarrow> t' < t"
  by (simp add: ref_host_def time_clip_def ms_per_day_def split: if_splits)

text \<open>
  The loop unrolled: when each of the \<open>n\<close> dates the loop visits first is the midnight of
  an entry and the next date is not, the streak is \<open>n\<close>. In particular the streak is 0
  when no entry has today's midnight, whatever the days before hold.
\<close>

lemma streak_counts_back_from_today:
  assumes "\<forall>k<n. has_entry_on h d (day_back h k now)"
    and "\<not> has_entry_on h d (day_back h n now)"
  shows "streak h now d = Some n"
proof (cases "entries d = []")
  case True
  then have "n = 0"
    using assms(1) by (cases n) (auto simp: has_entry_on_def daysWithEntry_def)
  then show ?thesis
    using True by (simp add: streak_def)
next
  case False
  then show ?thesis
    using streak_loop_walk [of n h "Some (start_of_day h now)" "daysWithEntry h d" 0] assms
    by (simp add: streak_def has_entry_on_def day_back_def)
qed

text \<open>On the host in UTC: entries today and yesterday give 2, entries on the two days
  before today give 0.\<close>

lemma streak_utc_examples:
  "has_entry_on ref_host today_and_yesterday (day_back ref_host 0 noon_jan3) \<and>
   has_entry_on ref_host today_and_yesterday (day_back ref_host 1 noon_jan3) \<and>
   \<not> has_entry_on ref_host today_and_yesterday (day_back ref_host 2 noon_jan3) \<and>
   streak ref_host noon_jan3 today_and_yesterday = Some 2 \<and>
   \<not> has_entry_on ref_host two_days_before (day_back ref_host 0 noon_jan3) \<and>
   has_entry_on ref_host two_days_before (day_back ref_host 1 noon_jan3) \<and>
   has_entry_on ref_host two_days_before (day_back ref_host 2 noon_jan3) \<and>
   streak ref_host noon_jan3 two_days_before = Some 0"
proof -
  have a0: "has_entry_on ref_host today_and_yesterday (day_back ref_host 0 noon_jan3)"
    by code_simp
  have a1: "has_entry_on ref_host today_and_yesterday (day_back ref_host 1 noon_jan3)"
    by code_simp
  have a2: "\<not> has_entry_on ref_host today_and_yesterday (day_back ref_host 2 noon_jan3)"
    by code_simp
  have b0: "\<not> has_entry_on ref_host two_days_before (day_back ref_host 0 noon_jan3)"
    by code_simp
  have b1: "has_entry_on ref_host two_days_before (day_back ref_host 1 noon_jan3)"
    by code_simp
  have b2: "has_entry_on ref_host two_days_before (day_back ref_host 2 noon_jan3)"
    by code_simp
  have "\<forall>k<2. has_entry_on ref_host today_and_yesterday (day_back ref_host k noon_jan3)"
    using a0 a1 by (auto simp: less_Suc_eq numeral_2_eq_2)
  then have a: "streak ref_host noon_jan3 today_and_yesterday = Some 2"
    using a2 by (rule streak_counts_back_from_today)
  have b: "streak ref_host noon_jan3 two_days_before = Some 0"
    using b0 by (intro streak_counts_back_from_today) simp_all
  show ?thesis
    using a0 a1 a2 a b0 b1 b2 b by blast
qed

text \<open>
  In terms of calendar days. Let \<open>day\<close> give the local calendar day of a time value, and
  let \<open>setHours(0, 0, 0, 0)\<close> give the same time value exactly for the times of one day.
  Then an entry has the midnight of a day when it falls on that day; and when
  \<open>setDate(getDate() - 1)\<close> leads from today's midnight to yesterday's and on to the
  midnight of the day before, entries today and yesterday only give a streak of 2.
\<close>

lemma has_entry_on_day:
  fixes day :: "int \<Rightarrow> int"
  assumes same: "\<And>t u. start_of_day h t = start_of_day h u \<longleftrightarrow> day t = day u"
  shows "has_entry_on h d (Some (start_of_day h t)) \<longleftrightarrow>
         Some (day t) \<in> set (map (\<lambda>e. map_option day (date_parse h (tsISO e))) (entries d))"
proof -
  have "Some (start_of_day h t) = map_option (start_of_day h) x \<longleftrightarrow>
        Some (day t) = map_option day x" for x
    by (cases x) (simp_all add: same)
  then show ?thesis
    by (simp add: has_entry_on_def daysWithEntry_def image_iff)
qed

lemma streak_zero_without_entry_today:
  assumes "\<not> has_entry_on h d (Some (start_of_day h now))"
  shows "streak h now d = Some 0"
  using assms by (intro streak_counts_back_from_today) (simp_all add: day_back_def)

lemma streak_two_on_calendar_days:
  fixes day :: "int \<Rightarrow> int"
  assumes same: "\<And>t u. start_of_day h t = start_of_day h u \<longleftrightarrow> day t = day u"
    and y: "prev_day h (start_of_day h now) = Some (start_of_day h y)" "day y = day now - 1"
    and z: "prev_day h (start_of_day h y) = Some (start_of_day h z)" "day z = day now - 2"
    and days: "set (map (\<lambda>e. map_option day (date_parse h (tsISO e))) (entries d)) =
                 {Some (day now), Some (day now - 1)}"
  shows "streak h now d = Some 2"
proof -
  have b0: "day_back h 0 now = Some (start_of_day h now)"
    by (simp add: day_back_def)
  have b1: "day_back h (Suc 0) now = Some (start_of_day h y)"
    by (simp add: day_back_def step_back_def y)
  have b2: "day_back h 2 now = Some (start_of_day h z)"
    by (simp add: day_back_def step_back_def y z numeral_2_eq_2)
  have "\<forall>k<2. has_entry_on h d (day_back h k now)"
    using days y(2)
    by (auto simp: less_Suc_eq numeral_2_eq_2 b0 b1 has_entry_on_day [OF same] simp del: set_map)
  moreover have "\<not> has_entry_on h d (day_back h 2 now)"
    using days z(2) by (simp add: b2 has_entry_on_day [OF same] del: set_map)
  ultimately show ?thesis
    by (rule streak_counts_back_from_today)
qed

lemma ref_host_same_day:
  "start_of_day ref_host t = start_of_day ref_host u \<longleftrightarrow> t div ms_per_day = u div ms_per_day"
proof -
  have "t - t mod ms_per_day = ms_per_day * (t div ms_per_day)" for t
    by (simp add: minus_mod_eq_mult_div)
  then show ?thesis
    by (simp add: ref_host_def ms_per_day_def)
qed


text \<open>
  C7, where it fails. On a day whose local midnight does not exist, \<open>setHours(0, 0, 0, 0)\<close>
  gives 01:00 for today, \<open>setDate(getDate() - 1)\<close> keeps that time of day and leads to
  01:00 of yesterday, and \<open>daysWithEntry\<close> holds 00:00 of yesterday: the walk stops
  there. In Santiago at noon of 8 September 2024, with one entry that day and one the day
  before, the streak is 1, where two consecutive days have an entry.
\<close>

theorem streak_skipped_midnight:
  "map (\<lambda>e. map_option santiago_day (date_parse santiago_host (tsISO e))) (entries santiago_doc) =
     [Some (santiago_day sunday_noon), Some (santiago_day sunday_noon - 1)] \<and>
   streak santiago_host sunday_noon santiago_doc = Some 1"
  by code_simp

lemma parseInt16_two_digits:
  assumes "hex_digit c1 = Some a1" "hex_digit c2 = Some a2"
  shows "parseInt16 [c1, c2] = Some (int (16 * a1 + a2))"
proof -
  have w: "\<not> is_white_space c1"
    using assms(1) by (auto simp: is_white_space_def hex_digit_def word_le_nat_alt split: if_splits)
  have s: "c1 \<noteq> 0x2B" "c1 \<noteq> 0x2D"
    using assms(1) by (auto simp: hex_digit_def word_le_nat_alt split: if_splits)
  have x: "c2 \<noteq> 0x78" "c2 \<noteq> 0x58"
    using assms(2) by (auto simp: hex_digit_def word_le_nat_alt split: if_splits)
  show ?thesis
    using assms w s x by (simp add: parseInt16_def str_def Let_def)
qed

text \<open>
  C9. For a colour \<open>#rrggbb\<close> of six hexadecimal digits, with \<open>r\<close>, \<open>g\<close> and \<open>b\<close> the
  values of the three pairs, \<open>readableTextColor\<close> answers with the dark text \<open>#18181b\<close>
  when \<open>(r * 299 + g * 587 + b * 114) / 1000\<close> is at least 140, and with white
  \<open>#ffffff\<close> when it is below. So black, red and blue get white text, white and green
  get dark text, and of the greys \<open>#8c8c8c\<close> (140) is the darkest with dark text.
\<close>

theorem readableTextColor_threshold:
  assumes "hex_digit r1 = Some a1" "hex_digit r2 = Some a2"
    and "hex_digit g1 = Some a3" "hex_digit g2 = Some a4"
    and "hex_digit b1 = Some a5" "hex_digit b2 = Some a6"
  shows "readableTextColor (Some (str ''#'' @ [r1, r2, g1, g2, b1, b2])) =
           (if 140 \<le> (real (16 * a1 + a2) * 299 + real (16 * a3 + a4) * 587 +
                        real (16 * a5 + a6) * 114) / 1000
            then str ''#18181b'' else str ''#ffffff'')"
  using assms
  by (simp add: readableTextColor_def slice_def str_def parseInt16_two_digits yiq_def)

theorem readableTextColor_threshold_witness:
  "readableTextColor (Some (str ''#000000'')) = str ''#ffffff'' \<and>
   readableTextColor (Some (str ''#ffffff'')) = str ''#18181b'' \<and>
   readableTextColor (Some (str ''#ff0000'')) = str ''#ffffff'' \<and>
   readableTextColor (Some (str ''#00ff00'')) = str ''#18181b'' \<and>
   readableTextColor (Some (str ''#0000ff'')) = str ''#ffffff'' \<and>
   readableTextColor (Some (str ''#8c8c8c'')) = str ''#18181b'' \<and>
   readableTextColor (Some (str ''#8b8b8b'')) = str ''#ffffff''"
proof -
  have z: "hex_digit 0x30 = Some 0" and f: "hex_digit 0x66 = Some 15"
    and e: "hex_digit 0x38 = Some 8" and c: "hex_digit 0x63 = Some 12"
    and b: "hex_digit 0x62 = Some 11"
    by (simp_all add: hex_digit_def)
  have s: "str ''#000000'' = str ''#'' @ [0x30, 0x30, 0x30, 0x30, 0x30, 0x30]"
    "str ''#ffffff'' = str ''#'' @ [0x66, 0x66, 0x66, 0x66, 0x66, 0x66]"
    "str ''#ff0000'' = str ''#'' @ [0x66, 0x66, 0x30, 0x30, 0x30, 0x30]"
    "str ''#00ff00'' = str ''#'' @ [0x30, 0x30, 0x66, 0x66, 0x30, 0x30]"
    "str ''#0000ff'' = str ''#'' @ [0x30, 0x30, 0x30, 0x30, 0x66, 0x66]"
    "str ''#8c8c8c'' = str ''#'' @ [0x38, 0x63, 0x38, 0x63, 0x38, 0x63]"
    "str ''#8b8b8b'' = str ''#'' @ [0x38, 0x62, 0x38, 0x62, 0x38, 0x62]"
    by (simp_all add: str_def)
  have "readableTextColor (Some (str ''#000000'')) = str ''#ffffff''"
    using readableTextColor_threshold [OF z z z z z z] by (simp add: s(1))
  moreover have "readableTextColor (Some (str ''#ffffff'')) = str ''#18181b''"
    using readableTextColor_threshold [OF f f f f f f] by (simp only: s(2)) simp
  moreover have "readableTextColor (Some (str ''#ff0000'')) = str ''#ffffff''"
    using readableTextColor_threshold [OF f f z z z z] by (simp add: s(3))
  moreover have "readableTextColor (Some (str ''#00ff00'')) = str ''#18181b''"
    using readableTextColor_threshold [OF z z f f z z] by (simp add: s(4))
  moreover have "readableTextColor (Some (str ''#0000ff'')) = str ''#ffffff''"
    using readableTextColor_threshold [OF z z z z f f] by (simp add: s(5))
  moreover have "readableTextColor (Some (str ''#8c8c8c'')) = str ''#18181b''"
    using readableTextColor_threshold [OF e c e c e c] by (simp add: s(6))
  moreover have "readableTextColor (Some (str ''#8b8b8b'')) = str ''#ffffff''"
    using readableTextColor_threshold [OF e b e b e b] by (simp add: s(7))
  ultimately show ?thesis by blast
qed


section \<open>Properties of the service worker\<close>

text \<open>
  C8. The \<open>fetch\<close> listener leaves every request that is not a \<open>GET\<close> to the browser. A
  \<open>GET\<close> is answered from the cache when the cache has it; otherwise with the response of
  the network; and when the network fails, with what the cache holds for
  \<open>./index.html\<close>.
\<close>

theorem on_fetch_policy:
  "(request_method req \<noteq> str ''GET'' \<longrightarrow> on_fetch caches_match fetch req = NotIntercepted) \<and>
   (request_method req = str ''GET'' \<longrightarrow>
      (\<forall>cached. caches_match (Request req) = Some cached \<longrightarrow>
         on_fetch caches_match fetch req = RespondWith (Some cached)) \<and>
      (caches_match (Request req) = None \<longrightarrow>
         (\<forall>response. fetch req = Some response \<longrightarrow>
            on_fetch caches_match fetch req = RespondWith (Some response)) \<and>
         (fetch req = None \<longrightarrow>
            on_fetch caches_match fetch req =
              RespondWith (caches_match (Url (str ''./index.html''))))))"
  by (simp add: on_fetch_def)

theorem on_fetch_policy_witness:
  "on_fetch asset_cache offline \<lparr>request_method = str ''POST'', url = str ''./main.js''\<rparr>
     = NotIntercepted \<and>
   on_fetch asset_cache offline \<lparr>request_method = str ''GET'', url = str ''./main.js''\<rparr>
     = RespondWith (Some ''the script'') \<and>
   on_fetch asset_cache (\<lambda>r. Some ''fresh'') \<lparr>request_method = str ''GET'', url = str ''./history''\<rparr>
     = RespondWith (Some ''fresh'') \<and>
   on_fetch asset_cache offline \<lparr>request_method = str ''GET'', url = str ''./history''\<rparr>
     = RespondWith (Some ''the index document'')"
  using
    on_fetch_policy [of "\<lparr>request_method = str ''POST'', url = str ''./main.js''\<rparr>" asset_cache offline]
    on_fetch_policy [of "\<lparr>request_method = str ''GET'', url = str ''./main.js''\<rparr>" asset_cache offline]
    on_fetch_policy [of "\<lparr>request_method = str ''GET'', url = str ''./history''\<rparr>" asset_cache
      "\<lambda>r. Some ''fresh''"]
    on_fetch_policy [of "\<lparr>request_method = str ''GET'', url = str ''./history''\<rparr>" asset_cache offline]
  by (simp add: asset_cache_def offline_def)

end
